theory Spec2Isabelle
  imports Main "HOL-Library.Word"
begin

unbundle bit_operations_syntax

section \<open>Bytes, object representations and the host\<close>

text \<open>
  A C \<^verbatim>\<open>char\<close>/\<^verbatim>\<open>uint8_t\<close> is an 8-bit word. A \<^verbatim>\<open>double\<close> is carried as its 64-bit
  object representation: the binary codec only copies it, and the two places where the
  JSON codec computes with it (the product \<^verbatim>\<open>when * timestamp_unit\<close> and the \<^verbatim>\<open>%f\<close>
  conversion) are operations of the host, taken as parameters.
\<close>

type_synonym byte = "8 word"
type_synonym double = "64 word"

datatype endian = LittleEndian | BigEndian

record host =
  byte_order :: endian
  dmul :: "double \<Rightarrow> double \<Rightarrow> double"
  fmt_f :: "double \<Rightarrow> byte list"

primrec le_bytes :: "nat \<Rightarrow> 'a::len word \<Rightarrow> byte list" where
  "le_bytes 0 w = []"
| "le_bytes (Suc k) w = ucast w # le_bytes k (drop_bit 8 w)"

text \<open>The \<open>k\<close> bytes a \<open>k\<close>-byte integer occupies in memory on the host.\<close>

definition object_bytes :: "host \<Rightarrow> nat \<Rightarrow> 'a::len word \<Rightarrow> byte list" where
  "object_bytes h k w =
     (case byte_order h of LittleEndian \<Rightarrow> le_bytes k w | BigEndian \<Rightarrow> rev (le_bytes k w))"

definition bytes_of :: "string \<Rightarrow> byte list" where
  "bytes_of s = map of_char s"

text \<open>\<^verbatim>\<open>memcpy(dst + off, src, n)\<close> with \<open>src\<close> holding the \<open>n\<close> bytes copied.\<close>

definition memcpy :: "byte list \<Rightarrow> nat \<Rightarrow> byte list \<Rightarrow> byte list" where
  "memcpy dst off src = take off dst @ src @ drop (off + length src) dst"

text \<open>\<^verbatim>\<open>strlen\<close>: the bytes before the first NUL.\<close>

definition strlen :: "byte list \<Rightarrow> nat" where
  "strlen s = length (takeWhile (\<lambda>b. b \<noteq> 0) s)"

text \<open>The \<^verbatim>\<open>%u\<close> conversion of \<^verbatim>\<open>printf\<close>: decimal digits, most significant first.\<close>

fun fmt_u :: "nat \<Rightarrow> string" where
  "fmt_u n =
     (if n < 10 then [''0123456789'' ! n]
      else fmt_u (n div 10) @ [''0123456789'' ! (n mod 10)])"

declare fmt_u.simps [simp del]

section \<open>The stdio stream\<close>

text \<open>
  A \<^verbatim>\<open>FILE\<close> opened for writing: the bytes it has received, the file position, the
  end-of-file and error indicators, and the outcomes of the coming input/output calls
  (an empty script means every call succeeds). A failing write delivers only a proper
  prefix of its bytes and sets the error indicator.
\<close>

datatype io_outcome = IoOk | IoFail nat

record FILE =
  contents :: "byte list"
  pos :: nat
  eof_ind :: bool
  err_ind :: bool
  script :: "io_outcome list"

definition next_outcome :: "FILE \<Rightarrow> io_outcome \<times> FILE" where
  "next_outcome f = (case script f of [] \<Rightarrow> (IoOk, f) | r # rs \<Rightarrow> (r, f\<lparr>script := rs\<rparr>))"

definition put_bytes :: "FILE \<Rightarrow> byte list \<Rightarrow> FILE" where
  "put_bytes f bs =
     (let c = contents f @ replicate (pos f - length (contents f)) 0
      in f\<lparr>contents := take (pos f) c @ bs @ drop (pos f + length bs) c,
           pos := pos f + length bs\<rparr>)"

text \<open>\<^verbatim>\<open>fwrite(p, n, 1, f)\<close>, \<open>p\<close> holding the \<open>n\<close> bytes: the number of items written.\<close>

definition fwrite :: "byte list \<Rightarrow> FILE \<Rightarrow> nat \<times> FILE" where
  "fwrite p f =
     (if p = [] then (0, f)
      else case next_outcome f of
             (IoOk, f') \<Rightarrow> (1, put_bytes f' p)
           | (IoFail k, f') \<Rightarrow>
               (0, (put_bytes f' (take (min k (length p - 1)) p))\<lparr>err_ind := True\<rparr>))"

text \<open>\<^verbatim>\<open>fprintf\<close> of an already formatted text: the number of bytes, or a negative value.\<close>

definition fprintf :: "FILE \<Rightarrow> byte list \<Rightarrow> int \<times> FILE" where
  "fprintf f text =
     (case next_outcome f of
        (IoOk, f') \<Rightarrow> (int (length text), put_bytes f' text)
      | (IoFail k, f') \<Rightarrow>
          (- 1, (put_bytes f' (take (min k (length text - 1)) text))\<lparr>err_ind := True\<rparr>))"

text \<open>\<^verbatim>\<open>fflush\<close>: 0 on success, \<^verbatim>\<open>EOF\<close> otherwise.\<close>

definition fflush :: "FILE \<Rightarrow> int \<times> FILE" where
  "fflush f =
     (case next_outcome f of
        (IoOk, f') \<Rightarrow> (0, f')
      | (IoFail k, f') \<Rightarrow> (- 1, f'\<lparr>err_ind := True\<rparr>))"

text \<open>\<^verbatim>\<open>fseek(f, off, SEEK_CUR)\<close>: fails, leaving the position, when it would be negative.\<close>

definition fseek_cur :: "FILE \<Rightarrow> int \<Rightarrow> int \<times> FILE" where
  "fseek_cur f off =
     (if int (pos f) + off < 0 then (- 1, f)
      else (0, f\<lparr>pos := nat (int (pos f) + off), eof_ind := False\<rparr>))"

definition feof :: "FILE \<Rightarrow> bool" where
  "feof f = eof_ind f"

definition ferror :: "FILE \<Rightarrow> bool" where
  "ferror f = err_ind f"

text \<open>
  \<^verbatim>\<open>fopen(filename, "wb")\<close>: the environment says, for each name, whether the file can be
  created and how its device will behave; a new stream is empty.
\<close>

definition fopen_wb :: "(string \<Rightarrow> io_outcome list option) \<Rightarrow> string \<Rightarrow> FILE option" where
  "fopen_wb env filename =
     map_option (\<lambda>s. \<lparr>contents = [], pos = 0, eof_ind = False, err_ind = False, script = s\<rparr>)
       (env filename)"

section \<open>Context and write buffer\<close>

record FlintContext =
  "file" :: "FILE option"
  timestamp_unit :: double
  is_json :: "64 word"

record FlintWriteBuffer =
  length_w :: "32 word"
  head :: "32 word"
  data :: "byte list"

text \<open>\<^verbatim>\<open>memset(&ctx, 0, sizeof(ctx))\<close> and \<^verbatim>\<open>FlintWriteBuffer wb_ = {0}\<close>.\<close>

definition ctx_zero :: FlintContext where
  "ctx_zero = \<lparr>file = None, timestamp_unit = 0, is_json = 0\<rparr>"

definition wb_zero :: FlintWriteBuffer where
  "wb_zero = \<lparr>length_w = 0, head = 0, data = []\<rparr>"

text \<open>\<^verbatim>\<open>if (!wb) wb = &wb_;\<close> and, on return, what the caller's pointer refers to.\<close>

definition wb_deref :: "FlintWriteBuffer option \<Rightarrow> FlintWriteBuffer" where
  "wb_deref wbp = (case wbp of None \<Rightarrow> wb_zero | Some wb \<Rightarrow> wb)"

definition wb_store :: "FlintWriteBuffer option \<Rightarrow> FlintWriteBuffer \<Rightarrow> FlintWriteBuffer option" where
  "wb_store wbp wb = (case wbp of None \<Rightarrow> None | Some _ \<Rightarrow> Some wb)"

definition Flint__BufferFlush :: "FlintWriteBuffer \<Rightarrow> FILE \<Rightarrow> bool \<times> FlintWriteBuffer \<times> FILE" where
  "Flint__BufferFlush wb f =
     (if head wb = 0 then (True, wb, f)
      else case fwrite (take (unat (head wb)) (data wb)) f of
             (r, f') \<Rightarrow> if r \<noteq> 1 then (False, wb, f') else (True, wb\<lparr>head := 0\<rparr>, f'))"

text \<open>
  \<open>p\<close> holds the \<open>n\<close> bytes to write. \<open>n\<close> is a \<^verbatim>\<open>size_t\<close> (64 bits), \<^verbatim>\<open>wb->head + n\<close> is
  computed in that type; \<^verbatim>\<open>wb->head += n\<close> converts back to 32 bits.
\<close>

definition Flint__BufferWrite ::
  "FlintWriteBuffer \<Rightarrow> FILE \<Rightarrow> byte list \<Rightarrow> bool \<times> FlintWriteBuffer \<times> FILE" where
  "Flint__BufferWrite wb f p =
     (let n = length p;
          (flushed, wb1, f1) =
             (if (unat (head wb) + n) mod 2 ^ 64 > unat (length_w wb)
              then Flint__BufferFlush wb f else (True, wb, f))
      in if \<not> flushed then (False, wb1, f1)
         else if n > unat (length_w wb) then (case fwrite p f1 of (r, f2) \<Rightarrow> (r \<noteq> 0, wb1, f2))
         else (True,
               wb1\<lparr>data := memcpy (data wb1) (unat (head wb1)) p,
                   head := head wb1 + word_of_nat n\<rparr>,
               f1))"

definition FlintFlush ::
  "FlintContext option \<Rightarrow> FlintWriteBuffer option \<Rightarrow>
     bool \<times> FlintContext option \<times> FlintWriteBuffer option" where
  "FlintFlush ctx wbp =
     (let result = True; wb = wb_deref wbp
      in case (case ctx of None \<Rightarrow> None | Some c \<Rightarrow> map_option (Pair c) (file c)) of
           Some (c, f) \<Rightarrow>
             (case Flint__BufferFlush wb f of (r1, wb1, f1) \<Rightarrow>
                let result = (if \<not> r1 then False else result)
                in case fflush f1 of (r2, f2) \<Rightarrow>
                     let result = (if r2 = 0 then False else result)
                     in (result, Some (c\<lparr>file := Some f2\<rparr>), wb_store wbp wb1))
         | None \<Rightarrow> (result \<and> ctx = None, ctx, wb_store wbp (wb\<lparr>head := 0\<rparr>)))"

definition FlintBufferInit :: "FlintWriteBuffer option \<Rightarrow> bool \<times> FlintWriteBuffer option" where
  "FlintBufferInit wbp = (case FlintFlush None wbp of (r, _, wbp') \<Rightarrow> (r, wbp'))"

definition FlintBufferQuit ::
  "FlintContext option \<Rightarrow> FlintWriteBuffer option \<Rightarrow>
     bool \<times> FlintContext option \<times> FlintWriteBuffer option" where
  "FlintBufferQuit ctx wbp = FlintFlush ctx wbp"

section \<open>Lifecycle\<close>

text \<open>
  \<^verbatim>\<open>FlintQuit\<close> returns the context as it leaves it and, when it closed a stream, that
  stream as it was handed to \<^verbatim>\<open>fclose\<close>: the file left behind. The results of
  \<^verbatim>\<open>fseek\<close> and \<^verbatim>\<open>fprintf\<close> are not looked at.
\<close>

definition FlintQuit :: "FlintContext option \<Rightarrow> FlintContext option \<times> FILE option" where
  "FlintQuit ctx =
     (case ctx of
        None \<Rightarrow> (None, None)
      | Some c \<Rightarrow>
          (case file c of
             Some f \<Rightarrow>
               (let f1 = (if is_json c \<noteq> 0
                          then snd (fprintf (snd (fseek_cur f (- 2)))
                                      (bytes_of [CHR 0x0A, CHR '']'', CHR ''}'', CHR 0x0A]))
                          else f)
                in (Some ctx_zero, Some f1))
           | None \<Rightarrow> (Some ctx_zero, None)))"

definition json_prologue :: "byte list" where
  "json_prologue = bytes_of (''{\"traceEvents\":['' @ [CHR 0x0A])"

text \<open>
  \<^verbatim>\<open>FlintHeader\<close> is packed: 8 + 8 + 8 + 1 bytes. \<^verbatim>\<open>Flint__Init\<close> never assigns
  \<^verbatim>\<open>reserved\<close>, so that byte is whatever the stack held: the parameter \<open>junk\<close>.
\<close>

record FlintHeader =
  magic_header :: "64 word"
  version :: "64 word"
  header_timestamp_unit :: double
  reserved :: byte

definition FlintHeader_bytes :: "host \<Rightarrow> FlintHeader \<Rightarrow> byte list" where
  "FlintHeader_bytes h hdr =
     object_bytes h 8 (magic_header hdr) @ object_bytes h 8 (version hdr) @
     object_bytes h 8 (header_timestamp_unit hdr) @ [reserved hdr]"

text \<open>
  The result is the context returned and, on the paths that tear down through
  \<^verbatim>\<open>FlintQuit\<close>, the stream that was closed.
\<close>

definition Flint__Init ::
  "host \<Rightarrow> (string \<Rightarrow> io_outcome list option) \<Rightarrow> byte \<Rightarrow>
     string option \<Rightarrow> double \<Rightarrow> bool \<Rightarrow> FlintContext \<times> FILE option" where
  "Flint__Init h env junk filename timestamp_unit' is_json' =
     (case filename of
        None \<Rightarrow> (ctx_zero, None)
      | Some fname \<Rightarrow>
          (let ctx = \<lparr>file = fopen_wb env fname, timestamp_unit = timestamp_unit',
                      is_json = (if is_json' then 1 else 0)\<rparr>;
               quit = (\<lambda>c. case FlintQuit (Some c) of
                              (Some c', closed) \<Rightarrow> (c', closed)
                            | (None, closed) \<Rightarrow> (c, closed))
           in case file ctx of
                None \<Rightarrow> quit ctx
              | Some f \<Rightarrow>
                  if is_json ctx \<noteq> 0 then
                    (case fprintf f json_prologue of (r, f1) \<Rightarrow>
                       if r \<le> 0 then quit (ctx\<lparr>file := Some f1\<rparr>)
                       else case fflush f1 of (r', f2) \<Rightarrow>
                         if r' \<noteq> 0 then quit (ctx\<lparr>file := Some f2\<rparr>)
                         else (ctx\<lparr>file := Some f2\<rparr>, None))
                  else
                    (let header = \<lparr>magic_header = 0x0BADF00D, version = 0,
                                    header_timestamp_unit = timestamp_unit', reserved = junk\<rparr>
                     in case fwrite (FlintHeader_bytes h header) f of (r, f1) \<Rightarrow>
                          if r \<noteq> 1 then quit (ctx\<lparr>file := Some f1\<rparr>)
                          else (ctx\<lparr>file := Some f1\<rparr>, None))))"

definition FlintInitJson ::
  "host \<Rightarrow> (string \<Rightarrow> io_outcome list option) \<Rightarrow> byte \<Rightarrow> string option \<Rightarrow> double \<Rightarrow>
     FlintContext \<times> FILE option" where
  "FlintInitJson h env junk filename timestamp_unit' =
     Flint__Init h env junk filename timestamp_unit' True"

definition FlintInit ::
  "host \<Rightarrow> (string \<Rightarrow> io_outcome list option) \<Rightarrow> byte \<Rightarrow> string option \<Rightarrow> double \<Rightarrow>
     FlintContext \<times> FILE option" where
  "FlintInit h env junk filename timestamp_unit' =
     Flint__Init h env junk filename timestamp_unit' False"

section \<open>Events\<close>

text \<open>
  \<^verbatim>\<open>FlintBeginEventMax\<close>, packed: type (1), pid (4), tid (4), when (8), name.length (1)
  and the 255 bytes of \<^verbatim>\<open>name.bytes\<close> with \<^verbatim>\<open>name_bytes\<close> behind it.
\<close>

record FlintEndEvent =
  ev_type :: byte
  ev_pid :: "32 word"
  ev_tid :: "32 word"
  ev_when :: double

record FlintBeginEvent = FlintEndEvent +
  name_length :: byte
  name_bytes :: "byte list"

definition FlintEventType_Begin :: byte where
  "FlintEventType_Begin = 2"

definition FlintEventType_End :: byte where
  "FlintEventType_End = 3"

definition FlintEndEvent_bytes :: "host \<Rightarrow> 'a FlintEndEvent_scheme \<Rightarrow> byte list" where
  "FlintEndEvent_bytes h ev =
     [ev_type ev] @ object_bytes h 4 (ev_pid ev) @ object_bytes h 4 (ev_tid ev) @
     object_bytes h 8 (ev_when ev)"

definition FlintBeginEvent_bytes :: "host \<Rightarrow> FlintBeginEvent \<Rightarrow> byte list" where
  "FlintBeginEvent_bytes h ev = FlintEndEvent_bytes h ev @ [name_length ev] @ name_bytes ev"

text \<open>\<^verbatim>\<open>sizeof(FlintBeginEvent)\<close>, which counts one byte of name, and \<^verbatim>\<open>sizeof(FlintEndEvent)\<close>.\<close>

definition sizeof_FlintBeginEvent :: nat where
  "sizeof_FlintBeginEvent = 19"

definition sizeof_FlintEndEvent :: nat where
  "sizeof_FlintEndEvent = 17"

text \<open>\<^verbatim>\<open>%.*s\<close>: at most \<open>prec\<close> bytes, stopping at a NUL.\<close>

definition fmt_s :: "nat \<Rightarrow> byte list \<Rightarrow> byte list" where
  "fmt_s prec s = takeWhile (\<lambda>b. b \<noteq> 0) (take prec s)"

definition json_begin :: "host \<Rightarrow> FlintBeginEvent \<Rightarrow> double \<Rightarrow> byte list" where
  "json_begin h ev unit =
     bytes_of ''{\"name\":\"'' @ fmt_s (unat (name_length ev)) (name_bytes ev) @
     bytes_of ''\",\"ph\":\"B\",\"pid\":'' @ bytes_of (fmt_u (unat (ev_pid ev))) @
     bytes_of '',\"tid\":'' @ bytes_of (fmt_u (unat (ev_tid ev))) @
     bytes_of '',\"ts\":'' @ fmt_f h (dmul h (ev_when ev) unit) @
     bytes_of (''},'' @ [CHR 0x0A])"

definition json_end :: "host \<Rightarrow> FlintEndEvent \<Rightarrow> double \<Rightarrow> byte list" where
  "json_end h ev unit =
     bytes_of ''{\"ph\":\"E\",\"pid\":'' @ bytes_of (fmt_u (unat (ev_pid ev))) @
     bytes_of '',\"tid\":'' @ bytes_of (fmt_u (unat (ev_tid ev))) @
     bytes_of '',\"ts\":'' @ fmt_f h (dmul h (ev_when ev) unit) @
     bytes_of (''},'' @ [CHR 0x0A])"

text \<open>
  \<open>name\<close> is the memory behind the caller's pointer (\<open>None\<close> for a null pointer),
  \<open>name_len\<close> the \<^verbatim>\<open>signed long\<close> passed with it. \<open>stack\<close> is what the storage of
  \<^verbatim>\<open>ev.event.name.bytes\<close> holds on entry: the local \<^verbatim>\<open>ev\<close> has no initialiser. The
  stream belongs to the context, so the context is returned with the stream as the call
  left it.
\<close>

definition FlintTraceBeginLenTidPid ::
  "host \<Rightarrow> byte list \<Rightarrow> FlintContext option \<Rightarrow> FlintWriteBuffer option \<Rightarrow> double \<Rightarrow>
     byte list option \<Rightarrow> int \<Rightarrow> 32 word \<Rightarrow> 32 word \<Rightarrow>
     bool \<times> FlintContext option \<times> FlintWriteBuffer option" where
  "FlintTraceBeginLenTidPid h stack ctx wbp when' name name_len tid pid =
     (let wb = wb_deref wbp
      in case ctx of
           None \<Rightarrow> (False, ctx, wbp)
         | Some c \<Rightarrow>
        (case name of
           None \<Rightarrow> (False, ctx, wbp)
         | Some nm \<Rightarrow>
        (case file c of
           None \<Rightarrow> (False, ctx, wbp)
         | Some f \<Rightarrow>
             if feof f then (False, ctx, wbp)
             else if ferror f then (False, ctx, wbp)
             else if name_len \<le> 0 then (False, ctx, wbp)
             else
               (let name_len = (if name_len > 255 then 255 else name_len);
                    ev = \<lparr>ev_type = FlintEventType_Begin, ev_pid = pid, ev_tid = tid,
                          ev_when = when', name_length = word_of_int name_len,
                          name_bytes = stack\<rparr>
                in if is_json c \<noteq> 0 then
                     (case fprintf f (json_begin h ev (timestamp_unit c)) of (r, f') \<Rightarrow>
                        if r \<le> 0 then (False, Some (c\<lparr>file := Some f'\<rparr>), wbp)
                        else (True, Some (c\<lparr>file := Some f'\<rparr>), wbp))
                   else
                     (let n8 = unat (word_of_int name_len :: byte);
                          ev = ev\<lparr>name_bytes := memcpy (name_bytes ev) 0 (take n8 nm)\<rparr>
                      in case Flint__BufferWrite wb f
                                (take ((sizeof_FlintBeginEvent + n8 - 1) mod 2 ^ 64)
                                   (FlintBeginEvent_bytes h ev)) of
                           (r, wb', f') \<Rightarrow>
                             if \<not> r then (False, Some (c\<lparr>file := Some f'\<rparr>), wb_store wbp wb')
                             else (True, Some (c\<lparr>file := Some f'\<rparr>), wb_store wbp wb'))))))"

text \<open>\<^verbatim>\<open>(signed long)name_len\<close> of an \<^verbatim>\<open>unsigned long\<close>, both 64 bits.\<close>

definition FlintTraceBeginTidPid ::
  "host \<Rightarrow> byte list \<Rightarrow> FlintContext option \<Rightarrow> FlintWriteBuffer option \<Rightarrow> double \<Rightarrow>
     byte list option \<Rightarrow> 32 word \<Rightarrow> 32 word \<Rightarrow>
     bool \<times> FlintContext option \<times> FlintWriteBuffer option" where
  "FlintTraceBeginTidPid h stack ctx wbp when' name tid pid =
     (case name of
        None \<Rightarrow> (False, ctx, wbp)
      | Some nm \<Rightarrow>
          (let name_len = strlen nm
           in if name_len = 0 then (False, ctx, wbp)
              else FlintTraceBeginLenTidPid h stack ctx wbp when' name
                     (sint (word_of_nat name_len :: 64 word)) tid pid))"

definition FlintTraceBeginLenTid ::
  "host \<Rightarrow> byte list \<Rightarrow> FlintContext option \<Rightarrow> FlintWriteBuffer option \<Rightarrow> double \<Rightarrow>
     byte list option \<Rightarrow> int \<Rightarrow> 32 word \<Rightarrow>
     bool \<times> FlintContext option \<times> FlintWriteBuffer option" where
  "FlintTraceBeginLenTid h stack ctx wbp when' name name_len tid =
     FlintTraceBeginLenTidPid h stack ctx wbp when' name name_len tid 0"

definition FlintTraceBeginLen ::
  "host \<Rightarrow> byte list \<Rightarrow> FlintContext option \<Rightarrow> FlintWriteBuffer option \<Rightarrow> double \<Rightarrow>
     byte list option \<Rightarrow> int \<Rightarrow>
     bool \<times> FlintContext option \<times> FlintWriteBuffer option" where
  "FlintTraceBeginLen h stack ctx wbp when' name name_len =
     FlintTraceBeginLenTidPid h stack ctx wbp when' name name_len 0 0"

definition FlintTraceBeginTid ::
  "host \<Rightarrow> byte list \<Rightarrow> FlintContext option \<Rightarrow> FlintWriteBuffer option \<Rightarrow> double \<Rightarrow>
     byte list option \<Rightarrow> 32 word \<Rightarrow>
     bool \<times> FlintContext option \<times> FlintWriteBuffer option" where
  "FlintTraceBeginTid h stack ctx wbp when' name tid =
     FlintTraceBeginTidPid h stack ctx wbp when' name tid 0"

definition FlintTraceBegin ::
  "host \<Rightarrow> byte list \<Rightarrow> FlintContext option \<Rightarrow> FlintWriteBuffer option \<Rightarrow> double \<Rightarrow>
     byte list option \<Rightarrow>
     bool \<times> FlintContext option \<times> FlintWriteBuffer option" where
  "FlintTraceBegin h stack ctx wbp when' name =
     FlintTraceBeginTidPid h stack ctx wbp when' name 0 0"

definition FlintTraceEndTidPid ::
  "host \<Rightarrow> FlintContext option \<Rightarrow> FlintWriteBuffer option \<Rightarrow> double \<Rightarrow> 32 word \<Rightarrow> 32 word \<Rightarrow>
     bool \<times> FlintContext option \<times> FlintWriteBuffer option" where
  "FlintTraceEndTidPid h ctx wbp when' tid pid =
     (let wb = wb_deref wbp
      in case ctx of
           None \<Rightarrow> (False, ctx, wbp)
         | Some c \<Rightarrow>
        (case file c of
           None \<Rightarrow> (False, ctx, wbp)
         | Some f \<Rightarrow>
             if feof f then (False, ctx, wbp)
             else if ferror f then (False, ctx, wbp)
             else
               (let ev = \<lparr>ev_type = FlintEventType_End, ev_pid = pid, ev_tid = tid,
                          ev_when = when'\<rparr>
                in if is_json c \<noteq> 0 then
                     (case fprintf f (json_end h ev (timestamp_unit c)) of (r, f') \<Rightarrow>
                        if r \<le> 0 then (False, Some (c\<lparr>file := Some f'\<rparr>), wbp)
                        else (True, Some (c\<lparr>file := Some f'\<rparr>), wbp))
                   else
                     (case Flint__BufferWrite wb f
                             (take sizeof_FlintEndEvent (FlintEndEvent_bytes h ev)) of
                        (r, wb', f') \<Rightarrow>
                          if \<not> r then (False, Some (c\<lparr>file := Some f'\<rparr>), wb_store wbp wb')
                          else (True, Some (c\<lparr>file := Some f'\<rparr>), wb_store wbp wb')))))"

definition FlintTraceEndTid ::
  "host \<Rightarrow> FlintContext option \<Rightarrow> FlintWriteBuffer option \<Rightarrow> double \<Rightarrow> 32 word \<Rightarrow>
     bool \<times> FlintContext option \<times> FlintWriteBuffer option" where
  "FlintTraceEndTid h ctx wbp when' tid = FlintTraceEndTidPid h ctx wbp when' tid 0"

definition FlintTraceEnd ::
  "host \<Rightarrow> FlintContext option \<Rightarrow> FlintWriteBuffer option \<Rightarrow> double \<Rightarrow>
     bool \<times> FlintContext option \<times> FlintWriteBuffer option" where
  "FlintTraceEnd h ctx wbp when' = FlintTraceEndTidPid h ctx wbp when' 0 0"

section \<open>Observations, call sequences and the record format\<close>

definition ctx_file :: "FlintContext option \<Rightarrow> FILE option" where
  "ctx_file ctx = (case ctx of None \<Rightarrow> None | Some c \<Rightarrow> file c)"

text \<open>The bytes the sink of a context has received.\<close>

definition sink_bytes :: "FlintContext option \<Rightarrow> byte list" where
  "sink_bytes ctx = (case ctx_file ctx of None \<Rightarrow> [] | Some f \<Rightarrow> contents f)"

text \<open>The bytes a write buffer holds: those below its cursor.\<close>

definition pending :: "FlintWriteBuffer \<Rightarrow> byte list" where
  "pending wb = take (unat (head wb)) (data wb)"

text \<open>
  A usable write buffer: the cursor is within the capacity and the storage has the
  capacity it declares. A stream positioned at its end, as one opened by \<^verbatim>\<open>Flint__Init\<close>
  and only written to is. A sink that accepts every coming write.
\<close>

definition wb_ok :: "FlintWriteBuffer \<Rightarrow> bool" where
  "wb_ok wb = (unat (head wb) \<le> unat (length_w wb) \<and> unat (length_w wb) \<le> length (data wb))"

definition at_end :: "FILE \<Rightarrow> bool" where
  "at_end f = (pos f = length (contents f))"

definition sink_ok :: "FILE \<Rightarrow> bool" where
  "sink_ok f = list_all (\<lambda>r. r = IoOk) (script f)"

text \<open>A sequence of buffer writes, every one performed, and the final flush.\<close>

fun BufferWrites ::
  "FlintWriteBuffer \<Rightarrow> FILE \<Rightarrow> byte list list \<Rightarrow> bool \<times> FlintWriteBuffer \<times> FILE" where
  "BufferWrites wb f [] = (True, wb, f)"
| "BufferWrites wb f (p # ps) =
     (case Flint__BufferWrite wb f p of (r, wb1, f1) \<Rightarrow>
        case BufferWrites wb1 f1 ps of (rs, wb2, f2) \<Rightarrow> (r \<and> rs, wb2, f2))"

definition BufferWrites_then_flush ::
  "FlintWriteBuffer \<Rightarrow> FILE \<Rightarrow> byte list list \<Rightarrow> bool \<times> FlintWriteBuffer \<times> FILE" where
  "BufferWrites_then_flush wb f ps =
     (case BufferWrites wb f ps of (r, wb1, f1) \<Rightarrow>
        case Flint__BufferFlush wb1 f1 of (r', wb2, f2) \<Rightarrow> (r \<and> r', wb2, f2))"

text \<open>
  The caller's write buffers, by address. A call passes a null pointer (\<open>None\<close>) or the
  address of one of them; what the call leaves in the buffer it was passed is stored
  back at that address.
\<close>

type_synonym buffers = "nat \<Rightarrow> FlintWriteBuffer"

definition wb_load :: "buffers \<Rightarrow> nat option \<Rightarrow> FlintWriteBuffer option" where
  "wb_load bufs wr = map_option bufs wr"

definition wb_save :: "buffers \<Rightarrow> nat option \<Rightarrow> FlintWriteBuffer option \<Rightarrow> buffers" where
  "wb_save bufs wr wbp =
     (case wr of None \<Rightarrow> bufs
      | Some a \<Rightarrow> (case wbp of None \<Rightarrow> bufs | Some wb \<Rightarrow> bufs(a := wb)))"

text \<open>
  A call of one of the two canonical entry points, with its arguments: the write buffer
  passed, then for Begin the stack contents on entry, timestamp, name, name length, tid
  and pid, for End timestamp, tid and pid.
\<close>

datatype trace_call =
  TraceBegin "nat option" "byte list" double "byte list option" int "32 word" "32 word"
| TraceEnd "nat option" double "32 word" "32 word"

fun call_buffer :: "trace_call \<Rightarrow> nat option" where
  "call_buffer (TraceBegin wr stack when' name name_len tid pid) = wr"
| "call_buffer (TraceEnd wr when' tid pid) = wr"

fun do_call ::
  "host \<Rightarrow> FlintContext option \<Rightarrow> buffers \<Rightarrow> trace_call \<Rightarrow>
     bool \<times> FlintContext option \<times> buffers" where
  "do_call h ctx bufs (TraceBegin wr stack when' name name_len tid pid) =
     (case FlintTraceBeginLenTidPid h stack ctx (wb_load bufs wr) when' name name_len tid pid of
        (r, ctx', wbp') \<Rightarrow> (r, ctx', wb_save bufs wr wbp'))"
| "do_call h ctx bufs (TraceEnd wr when' tid pid) =
     (case FlintTraceEndTidPid h ctx (wb_load bufs wr) when' tid pid of
        (r, ctx', wbp') \<Rightarrow> (r, ctx', wb_save bufs wr wbp'))"

fun trace_calls ::
  "host \<Rightarrow> FlintContext option \<Rightarrow> buffers \<Rightarrow> trace_call list \<Rightarrow>
     bool \<times> FlintContext option \<times> buffers" where
  "trace_calls h ctx bufs [] = (True, ctx, bufs)"
| "trace_calls h ctx bufs (call # calls) =
     (case do_call h ctx bufs call of (r, ctx1, bufs1) \<Rightarrow>
        case trace_calls h ctx1 bufs1 calls of (rs, ctx2, bufs2) \<Rightarrow> (r \<and> rs, ctx2, bufs2))"

text \<open>
  The calls followed by \<^verbatim>\<open>FlintFlush\<close> of the buffer \<open>wr\<close>. The boolean says that every
  call returned true and that the flush left that buffer empty, that is, handed every
  byte it held to the sink.
\<close>

definition trace_then_flush ::
  "host \<Rightarrow> FlintContext option \<Rightarrow> buffers \<Rightarrow> nat option \<Rightarrow> trace_call list \<Rightarrow>
     bool \<times> FlintContext option \<times> buffers" where
  "trace_then_flush h ctx bufs wr calls =
     (case trace_calls h ctx bufs calls of (r, ctx1, bufs1) \<Rightarrow>
        case FlintFlush ctx1 (wb_load bufs1 wr) of (r', ctx2, wbp2) \<Rightarrow>
          (r \<and> head (wb_deref wbp2) = 0, ctx2, wb_save bufs1 wr wbp2))"

text \<open>Every call of the sequence passes the one buffer \<open>wr\<close> (or every call none).\<close>

definition same_buffer :: "nat option \<Rightarrow> trace_call list \<Rightarrow> bool" where
  "same_buffer wr calls = list_all (\<lambda>call. call_buffer call = wr) calls"

text \<open>
  The logical event of a call, as the specification has it: type tag, pid, tid, timestamp
  and name, the name being the first \<open>min name_len 255\<close> bytes of the caller's name (empty
  for End).
\<close>

type_synonym trace_tuple = "byte \<times> 32 word \<times> 32 word \<times> double \<times> byte list"

fun recorded :: "trace_call \<Rightarrow> trace_tuple" where
  "recorded (TraceBegin wr stack when' name name_len tid pid) =
     (2, pid, tid, when', take (nat (min name_len 255)) (case name of None \<Rightarrow> [] | Some nm \<Rightarrow> nm))"
| "recorded (TraceEnd wr when' tid pid) = (3, pid, tid, when', [])"

text \<open>The caller's name has the bytes that the call is told to read.\<close>

fun name_readable :: "trace_call \<Rightarrow> bool" where
  "name_readable (TraceBegin wr stack when' name name_len tid pid) =
     (case name of None \<Rightarrow> True | Some nm \<Rightarrow> nat (min name_len 255) \<le> length nm)"
| "name_readable (TraceEnd wr when' tid pid) = True"

text \<open>
  The record layout in the specification's words: tag (1), pid (4), tid (4),
  timestamp (8), and for Begin only namelen (1) and the name bytes; integers in the
  host's byte order.
\<close>

fun spec_record :: "host \<Rightarrow> trace_tuple \<Rightarrow> byte list" where
  "spec_record h (tag, pid, tid, ts, name) =
     [tag] @ object_bytes h 4 pid @ object_bytes h 4 tid @ object_bytes h 8 ts @
     (if tag = 2 then [word_of_nat (length name)] @ name else [])"

primrec le_word :: "byte list \<Rightarrow> 'a::len word" where
  "le_word [] = 0"
| "le_word (b # bs) = ucast b OR push_bit 8 (le_word bs)"

definition object_word :: "host \<Rightarrow> byte list \<Rightarrow> 'a::len word" where
  "object_word h bs =
     (case byte_order h of LittleEndian \<Rightarrow> le_word bs | BigEndian \<Rightarrow> le_word (rev bs))"

text \<open>The decoder of a record stream: \<open>None\<close> on an unknown tag or a truncated record.\<close>

function decode_records :: "host \<Rightarrow> byte list \<Rightarrow> trace_tuple list option" where
  "decode_records h [] = Some []"
| "decode_records h (tag # bs) =
     (if tag = 2 then
        (if length bs < 17 then None
         else let n = unat (bs ! 16)
              in if length bs < 17 + n then None
                 else map_option
                        ((#) (tag, object_word h (take 4 bs), object_word h (take 4 (drop 4 bs)),
                              object_word h (take 8 (drop 8 bs)), take n (drop 17 bs)))
                        (decode_records h (drop (17 + n) bs)))
      else if tag = 3 then
        (if length bs < 16 then None
         else map_option
                ((#) (tag, object_word h (take 4 bs), object_word h (take 4 (drop 4 bs)),
                      object_word h (take 8 (drop 8 bs)), []))
                (decode_records h (drop 16 bs)))
      else None)"
  by pat_completeness auto

termination
  by (relation "measure (\<lambda>(h, bs). length bs)") auto

declare decode_records.simps(2) [simp del]

text \<open>
  The scenario of the specification: open \<^verbatim>\<open>t.bin\<close> in binary mode with unit 1.0, one
  Begin named \<^verbatim>\<open>A\<close> at 1.0, one End at 2.0, Quit; no write buffer is passed, every call
  of the device succeeds. The result: what Begin and End returned, and the file closed.
\<close>

definition double_1 :: double where
  "double_1 = 0x3FF0000000000000"

definition double_2 :: double where
  "double_2 = 0x4000000000000000"

definition scenario_t_bin :: "host \<Rightarrow> byte \<Rightarrow> byte list \<Rightarrow> bool \<times> bool \<times> FILE option" where
  "scenario_t_bin h junk stack =
     (case FlintInit h (\<lambda>_. Some []) junk (Some ''t.bin'') double_1 of (ctx, _) \<Rightarrow>
        case FlintTraceBegin h stack (Some ctx) None double_1 (Some (bytes_of ''A'' @ [0])) of
          (r1, ctx1, _) \<Rightarrow>
            case FlintTraceEnd h ctx1 None double_2 of
              (r2, ctx2, _) \<Rightarrow>
                case FlintQuit ctx2 of (ctx3, closed) \<Rightarrow> (r1, r2, closed))"

text \<open>A JSON trace opened and closed at once, with a device that never fails.\<close>

definition scenario_empty_json :: "host \<Rightarrow> byte \<Rightarrow> double \<Rightarrow> FILE option" where
  "scenario_empty_json h junk unit =
     (case FlintInitJson h (\<lambda>_. Some []) junk (Some ''t.json'') unit of (ctx, _) \<Rightarrow>
        snd (FlintQuit (Some ctx)))"

text \<open>
  A well-formed logical event: a Begin with a name of at most 255 bytes, or an End
  without a name.
\<close>

definition tuple_ok :: "trace_tuple \<Rightarrow> bool" where
  "tuple_ok t = (case t of (tag, pid, tid, ts, name) \<Rightarrow>
                   (tag = 2 \<and> length name \<le> 255) \<or> (tag = 3 \<and> name = []))"

text \<open>
  What has been written through a context and a buffer: the bytes at the sink, then
  the bytes the buffer still holds, which the next flush hands to the sink.
\<close>

definition written :: "FlintContext option \<Rightarrow> FlintWriteBuffer option \<Rightarrow> byte list" where
  "written ctx wbp = sink_bytes ctx @ pending (wb_deref wbp)"

text \<open>
  The state between the calls of a binary trace: an open binary context whose stream is
  positioned at its end, and a usable buffer.
\<close>

definition bin_inv :: "FlintContext option \<Rightarrow> FlintWriteBuffer option \<Rightarrow> bool" where
  "bin_inv ctx wbp =
     (case ctx of None \<Rightarrow> False
      | Some c \<Rightarrow> is_json c = 0 \<and> (case file c of None \<Rightarrow> False | Some f \<Rightarrow> at_end f)
                  \<and> wb_ok (wb_deref wbp))"

text \<open>
  A little-endian host for the closed examples. No binary-mode call uses its
  floating-point operations; they are those of the timestamp 0.0, the only one of the
  JSON examples: 0.0 times a finite unit is 0.0, printed by \<^verbatim>\<open>%f\<close> as \<^verbatim>\<open>0.000000\<close>.
\<close>

definition example_host :: host where
  "example_host =
     \<lparr>byte_order = LittleEndian, dmul = (\<lambda>a b. 0), fmt_f = (\<lambda>d. bytes_of ''0.000000'')\<rparr>"

text \<open>Caller's memory in which every address holds an empty buffer of 20 bytes.\<close>

definition example_buffers :: buffers where
  "example_buffers = (\<lambda>a. \<lparr>length_w = 20, head = 0, data = replicate 20 0\<rparr>)"

text \<open>The bytes of a file that was closed (none when no file was).\<close>

definition file_bytes :: "FILE option \<Rightarrow> byte list" where
  "file_bytes fp = (case fp of None \<Rightarrow> [] | Some f \<Rightarrow> contents f)"

section \<open>Validation, teardown and flushing without a sink\<close>

text \<open>
  C8. A Begin call with a null context, an absent sink, a sink at end-of-file or in an
  error state, a null name or a non-positive name length returns false and has no side
  effect: the context with its sink and the write buffer with its cursor are as before.
\<close>

theorem begin_invalid_no_effect:
  assumes "ctx = None \<or> ctx_file ctx = None
           \<or> (case ctx_file ctx of None \<Rightarrow> False | Some f \<Rightarrow> feof f \<or> ferror f)
           \<or> name = None \<or> name_len \<le> 0"
  shows "FlintTraceBeginLenTidPid h stack ctx wbp when' name name_len tid pid = (False, ctx, wbp)"
  using assms
  by (auto simp: FlintTraceBeginLenTidPid_def ctx_file_def split: option.splits)

theorem begin_invalid_no_effect_witness:
  "(0::int) \<le> 0 \<and>
   FlintTraceBeginLenTidPid example_host []
     (Some \<lparr>file = Some \<lparr>contents = [1, 2, 3], pos = 3, eof_ind = False, err_ind = False,
                         script = []\<rparr>,
            timestamp_unit = 0, is_json = 0\<rparr>)
     (Some \<lparr>length_w = 4, head = 2, data = [7, 8, 0, 0]\<rparr>) 0 (Some [65, 0]) 0 0 0
   = (False,
      Some \<lparr>file = Some \<lparr>contents = [1, 2, 3], pos = 3, eof_ind = False, err_ind = False,
                         script = []\<rparr>,
            timestamp_unit = 0, is_json = 0\<rparr>,
      Some \<lparr>length_w = 4, head = 2, data = [7, 8, 0, 0]\<rparr>)"
proof -
  have h: "(0::int) \<le> 0" by simp
  then show ?thesis
    using begin_invalid_no_effect [where name_len = 0 and name = "Some [65, 0]"] by simp
qed

text \<open>
  C9. Quit is idempotent: a first Quit leaves a non-null context in the all-zero inert
  state, a second Quit on what the first left changes nothing and closes no stream, and
  so does Quit on any inert context.
\<close>

theorem quit_idempotent:
  "fst (FlintQuit ctx) = map_option (\<lambda>c. ctx_zero) ctx \<and>
   FlintQuit (fst (FlintQuit ctx)) = (fst (FlintQuit ctx), None) \<and>
   FlintQuit (Some ctx_zero) = (Some ctx_zero, None)"
  by (auto simp: FlintQuit_def ctx_zero_def Let_def split: option.splits)

text \<open>
  C10. \<^verbatim>\<open>FlintFlush\<close> with a null context, or with a context whose sink is absent, touches
  no sink and resets the cursor of the buffer to 0, dropping what it held; it returns
  true for the null context, so \<^verbatim>\<open>FlintBufferInit\<close> always succeeds, and false for the
  context without a sink.
\<close>

theorem flush_without_sink:
  "FlintFlush None wbp = (True, None, map_option (\<lambda>wb. wb\<lparr>head := 0\<rparr>) wbp) \<and>
   FlintFlush (Some (c\<lparr>file := None\<rparr>)) wbp
     = (False, Some (c\<lparr>file := None\<rparr>), map_option (\<lambda>wb. wb\<lparr>head := 0\<rparr>) wbp) \<and>
   FlintBufferInit wbp = (True, map_option (\<lambda>wb. wb\<lparr>head := 0\<rparr>) wbp)"
  by (auto simp: FlintFlush_def FlintBufferInit_def wb_store_def wb_deref_def Let_def
           split: option.splits)

text \<open>
  C2. \<^verbatim>\<open>FlintFlush\<close> on an open context tests \<^verbatim>\<open>!fflush(ctx->file)\<close>, and \<^verbatim>\<open>fflush\<close>
  returns 0 on success. With a sink on which every call succeeds, the two held bytes
  reach the sink, the cursor is reset, and the result is false; when the write succeeds
  and \<^verbatim>\<open>fflush\<close> fails, the result is true.
\<close>

theorem flush_result_inverted:
  "FlintFlush
     (Some \<lparr>file = Some \<lparr>contents = [9], pos = 1, eof_ind = False, err_ind = False,
                         script = []\<rparr>,
            timestamp_unit = 0, is_json = 0\<rparr>)
     (Some \<lparr>length_w = 4, head = 2, data = [7, 8, 0, 0]\<rparr>)
   = (False,
      Some \<lparr>file = Some \<lparr>contents = [9, 7, 8], pos = 3, eof_ind = False, err_ind = False,
                         script = []\<rparr>,
            timestamp_unit = 0, is_json = 0\<rparr>,
      Some \<lparr>length_w = 4, head = 0, data = [7, 8, 0, 0]\<rparr>)
   \<and>
   FlintFlush
     (Some \<lparr>file = Some \<lparr>contents = [9], pos = 1, eof_ind = False, err_ind = False,
                         script = [IoOk, IoFail 0]\<rparr>,
            timestamp_unit = 0, is_json = 0\<rparr>)
     (Some \<lparr>length_w = 4, head = 2, data = [7, 8, 0, 0]\<rparr>)
   = (True,
      Some \<lparr>file = Some \<lparr>contents = [9, 7, 8], pos = 3, eof_ind = False, err_ind = True,
                         script = []\<rparr>,
            timestamp_unit = 0, is_json = 0\<rparr>,
      Some \<lparr>length_w = 4, head = 0, data = [7, 8, 0, 0]\<rparr>)"
  by (simp add: FlintFlush_def Flint__BufferFlush_def fwrite_def fflush_def next_outcome_def
        put_bytes_def wb_store_def wb_deref_def Let_def)

section \<open>The write buffer\<close>

lemma put_bytes_at_end:
  "at_end f \<Longrightarrow> contents (put_bytes f bs) = contents f @ bs \<and> at_end (put_bytes f bs)
     \<and> script (put_bytes f bs) = script f \<and> eof_ind (put_bytes f bs) = eof_ind f
     \<and> err_ind (put_bytes f bs) = err_ind f"
  by (simp add: put_bytes_def at_end_def Let_def)

lemma next_outcome_at_end:
  "next_outcome f = (r, f') \<Longrightarrow> at_end f' = at_end f \<and> contents f' = contents f"
  by (auto simp: next_outcome_def at_end_def split: list.splits)

lemma fwrite_ok:
  assumes "fwrite p f = (r, f')" "r \<noteq> 0" "at_end f"
  shows "contents f' = contents f @ p \<and> at_end f' \<and> p \<noteq> []"
proof -
  obtain o1 f1 where n: "next_outcome f = (o1, f1)" by (cases "next_outcome f")
  with assms(3) have a: "at_end f1" "contents f1 = contents f"
    using next_outcome_at_end by blast+
  from assms(1,2) n have "p \<noteq> []" "o1 = IoOk" "f' = put_bytes f1 p"
    by (auto simp: fwrite_def split: if_splits io_outcome.splits)
  with a put_bytes_at_end[OF a(1), of p] show ?thesis by simp
qed

lemma fwrite_sink_ok:
  assumes "sink_ok f" "p \<noteq> []"
  shows "fst (fwrite p f) = 1 \<and> sink_ok (snd (fwrite p f))"
  using assms
  by (auto simp: fwrite_def next_outcome_def put_bytes_def sink_ok_def Let_def
           split: if_splits list.splits io_outcome.splits)

lemma BufferFlush_ok:
  assumes "Flint__BufferFlush wb f = (True, wb', f')" "at_end f"
  shows "contents f' = contents f @ pending wb \<and> at_end f' \<and> wb' = wb\<lparr>head := 0\<rparr>"
  using assms fwrite_ok[of "take (unat (head wb)) (data wb)" f]
  by (auto simp: Flint__BufferFlush_def pending_def split: if_splits prod.splits)

lemma BufferFlush_sink_ok:
  assumes "sink_ok f" "wb_ok wb"
  shows "fst (Flint__BufferFlush wb f) \<and> sink_ok (snd (snd (Flint__BufferFlush wb f)))"
proof (cases "head wb = 0")
  case True
  then show ?thesis using assms by (simp add: Flint__BufferFlush_def)
next
  case False
  then have "unat (head wb) \<noteq> 0" by (simp add: unat_eq_0)
  then have "take (unat (head wb)) (data wb) \<noteq> []"
    using assms(2) by (auto simp: wb_ok_def)
  from fwrite_sink_ok[OF assms(1) this] False show ?thesis
    by (auto simp: Flint__BufferFlush_def split: prod.splits)
qed

lemma BufferWrite_ok:
  assumes "Flint__BufferWrite wb f p = (True, wb', f')"
    and "wb_ok wb" "at_end f" "length p < 2 ^ 63"
  shows "contents f' @ pending wb' = contents f @ pending wb @ p \<and> wb_ok wb' \<and> at_end f'
         \<and> length_w wb' = length_w wb"
proof -
  let ?n = "length p"
  have hl: "unat (head wb) < 2 ^ 32" using unsigned_less[of "head wb", where ?'a = nat] by simp
  have ll: "unat (length_w wb) < 2 ^ 32" using unsigned_less[of "length_w wb", where ?'a = nat] by simp
  have nomod: "(unat (head wb) + ?n) mod 2 ^ 64 = unat (head wb) + ?n"
    using hl assms(4) by simp
  show ?thesis
  proof (cases "unat (head wb) + ?n > unat (length_w wb)")
    case False
    then have le: "unat (head wb) + ?n \<le> unat (length_w wb)" by simp
    then have nle: "\<not> ?n > unat (length_w wb)" by simp
    have hd': "unat (head wb + word_of_nat ?n) = unat (head wb) + ?n"
      using le ll by (simp add: unat_word_ariths unat_of_nat)
    from assms(1) False nle nomod
    have wb': "wb' = wb\<lparr>data := memcpy (data wb) (unat (head wb)) p, head := head wb + word_of_nat ?n\<rparr>"
      and f': "f' = f"
      by (simp_all add: Flint__BufferWrite_def Let_def)
    show ?thesis using assms(2,3) le hd'
      by (simp add: wb' f' pending_def wb_ok_def memcpy_def)
  next
    case True
    obtain r1 wb1 f1 where fl: "Flint__BufferFlush wb f = (r1, wb1, f1)"
      by (cases "Flint__BufferFlush wb f")
    from assms(1) True nomod fl have r1: "r1" 
      by (auto simp add: Flint__BufferWrite_def Let_def split: if_splits)
    from BufferFlush_ok[OF fl[unfolded r1[THEN eqTrueI]] assms(3)]
    have c1: "contents f1 = contents f @ pending wb" "at_end f1" "wb1 = wb\<lparr>head := 0\<rparr>"
      by simp_all
    show ?thesis
    proof (cases "?n > unat (length_w wb)")
      case True
      then obtain r2 where w: "fwrite p f1 = (r2, f')" "r2 \<noteq> 0" "wb' = wb1"
        using assms(1) \<open>unat (head wb) + ?n > unat (length_w wb)\<close> nomod fl r1 c1(3)
        by (auto simp add: Flint__BufferWrite_def Let_def split: if_splits prod.splits)
      from fwrite_ok[OF w(1,2) c1(2)] c1 w(3) assms(2) show ?thesis
        by (simp add: pending_def wb_ok_def)
    next
      case False
      then have nl: "?n \<le> unat (length_w wb)" by simp
      have hd': "unat (word_of_nat ?n :: 32 word) = ?n"
        using nl ll by (simp add: unat_of_nat)
      from assms(1) \<open>unat (head wb) + ?n > unat (length_w wb)\<close> nomod fl r1 c1(3) False
      have wb': "wb' = wb\<lparr>head := 0, data := memcpy (data wb) 0 p, head := word_of_nat ?n\<rparr>"
        and f': "f' = f1"
        by (simp_all add: Flint__BufferWrite_def Let_def)
      show ?thesis using assms(2) c1 nl hd'
        by (simp add: wb' f' pending_def wb_ok_def memcpy_def)
    qed
  qed
qed


lemma BufferWrite_sink_ok:
  assumes "sink_ok f" "wb_ok wb"
  shows "fst (Flint__BufferWrite wb f p) \<and> sink_ok (snd (snd (Flint__BufferWrite wb f p)))"
proof -
  obtain r1 wb1 f1 where fl:
    "(if (unat (head wb) + length p) mod 2 ^ 64 > unat (length_w wb)
      then Flint__BufferFlush wb f else (True, wb, f)) = (r1, wb1, f1)"
    by (metis prod_cases3)
  have ok1: "r1 \<and> sink_ok f1"
    using fl assms BufferFlush_sink_ok[OF assms] by (auto split: if_splits)
  have lw: "length_w wb1 = length_w wb"
    using fl by (auto simp: Flint__BufferFlush_def split: if_splits prod.splits)
  show ?thesis
  proof (cases "length p > unat (length_w wb)")
    case True
    then have "p \<noteq> []" by auto
    from fwrite_sink_ok[OF conjunct2[OF ok1] this] True ok1 fl show ?thesis
      by (auto simp add: Flint__BufferWrite_def Let_def split: prod.splits)
  next
    case False
    with ok1 fl show ?thesis
      by (simp add: Flint__BufferWrite_def Let_def split: prod.splits)
  qed
qed

lemma BufferWrites_sink_ok:
  assumes "sink_ok f" "wb_ok wb" "at_end f" "\<forall>p\<in>set ps. length p < 2 ^ 63"
  shows "fst (BufferWrites wb f ps) \<and> sink_ok (snd (snd (BufferWrites wb f ps)))"
  using assms
proof (induction ps arbitrary: wb f)
  case Nil
  then show ?case by simp
next
  case (Cons p ps)
  obtain r wb1 f1 where w: "Flint__BufferWrite wb f p = (r, wb1, f1)"
    by (cases "Flint__BufferWrite wb f p")
  from BufferWrite_sink_ok[OF Cons.prems(1,2), of p] w have r: "r" "sink_ok f1" by simp_all
  from BufferWrite_ok[OF w[unfolded r(1)[THEN eqTrueI]] Cons.prems(2,3)] Cons.prems(4)
  have s1: "wb_ok wb1" "at_end f1" by simp_all
  from Cons.IH[OF r(2) s1] Cons.prems(4) w r(1) show ?case
    by (simp split: prod.splits)
qed

lemma BufferWrites_ok:
  assumes "BufferWrites wb f ps = (True, wb', f')"
    and "wb_ok wb" "at_end f" "\<forall>p\<in>set ps. length p < 2 ^ 63"
  shows "contents f' @ pending wb' = contents f @ pending wb @ concat ps \<and> wb_ok wb' \<and> at_end f'"
  using assms
proof (induction ps arbitrary: wb f)
  case Nil
  then show ?case by simp
next
  case (Cons p ps)
  obtain r wb1 f1 where w: "Flint__BufferWrite wb f p = (r, wb1, f1)"
    by (cases "Flint__BufferWrite wb f p")
  obtain rs wb2 f2 where ws: "BufferWrites wb1 f1 ps = (rs, wb2, f2)"
    by (cases "BufferWrites wb1 f1 ps")
  from Cons.prems(1) w ws have e: "r" "rs" "wb2 = wb'" "f2 = f'" by simp_all
  from BufferWrite_ok[OF w[unfolded e(1)[THEN eqTrueI]] Cons.prems(2,3)] Cons.prems(4)
  have s1: "contents f1 @ pending wb1 = contents f @ pending wb @ p" "wb_ok wb1" "at_end f1"
    by simp_all
  from Cons.IH[OF ws[unfolded e(2)[THEN eqTrueI] e(3,4)] s1(2,3)] Cons.prems(4)
  have "contents f' @ pending wb' = contents f1 @ pending wb1 @ concat ps \<and> wb_ok wb' \<and> at_end f'"
    by simp
  with s1(1) show ?case by (metis append.assoc concat.simps(2))
qed


text \<open>
  C6. For a usable write buffer of any capacity and any sequence of payloads written
  through it and followed by a flush: when the sink accepts every write, every call
  returns true; and whenever every call returned true, the sink has received, after what
  it and the buffer held before, the concatenation of the payloads in call order, and
  the buffer is empty. The three paths of \<^verbatim>\<open>Flint__BufferWrite\<close> (append, flush first,
  bypass) are the cases of the proof of \<open>BufferWrite_ok\<close>.
\<close>

theorem buffer_writes_concatenate:
  assumes "wb_ok wb" "at_end f" "\<forall>p\<in>set ps. length p < 2 ^ 63"
    and "BufferWrites_then_flush wb f ps = (r, wb', f')"
  shows "(sink_ok f \<longrightarrow> r) \<and>
         (r \<longrightarrow> contents f' = contents f @ pending wb @ concat ps \<and> head wb' = 0)"
proof -
  obtain r1 wb1 f1 where ws: "BufferWrites wb f ps = (r1, wb1, f1)"
    by (cases "BufferWrites wb f ps")
  obtain r2 where fl: "Flint__BufferFlush wb1 f1 = (r2, wb', f')" and r: "r = (r1 \<and> r2)"
    using assms(4) ws by (auto simp: BufferWrites_then_flush_def split: prod.splits)
  have a: "r" if so: "sink_ok f"
  proof -
    from BufferWrites_sink_ok[OF so assms(1,2,3)] ws have r1: "r1" "sink_ok f1" by simp_all
    from BufferWrites_ok[OF ws[unfolded r1(1)[THEN eqTrueI]] assms(1,2,3)] have "wb_ok wb1" by simp
    from BufferFlush_sink_ok[OF r1(2) this] fl r r1(1) show ?thesis by simp
  qed
  have b: "contents f' = contents f @ pending wb @ concat ps \<and> head wb' = 0" if "r"
  proof -
    from that r have r12: "r1" "r2" by simp_all
    from BufferWrites_ok[OF ws[unfolded r12(1)[THEN eqTrueI]] assms(1,2,3)]
    have s1: "contents f1 @ pending wb1 = contents f @ pending wb @ concat ps" "at_end f1"
      by simp_all
    from BufferFlush_ok[OF fl[unfolded r12(2)[THEN eqTrueI]] s1(2)] s1(1) show ?thesis by simp
  qed
  from a b show ?thesis by blast
qed

theorem buffer_writes_concatenate_witness:
  "wb_ok \<lparr>length_w = 4, head = 0, data = [0, 0, 0, 0]\<rparr> \<and>
   at_end \<lparr>contents = [9], pos = 1, eof_ind = False, err_ind = False, script = []\<rparr> \<and>
   sink_ok \<lparr>contents = [9], pos = 1, eof_ind = False, err_ind = False, script = []\<rparr> \<and>
   BufferWrites_then_flush \<lparr>length_w = 4, head = 0, data = [0, 0, 0, 0]\<rparr>
     \<lparr>contents = [9], pos = 1, eof_ind = False, err_ind = False, script = []\<rparr>
     [[1, 2, 3], [4, 5], [6, 7, 8, 9, 10], [11]]
   = (True, \<lparr>length_w = 4, head = 0, data = [11, 5, 3, 0]\<rparr>,
      \<lparr>contents = [9, 1, 2, 3, 4, 5, 6, 7, 8, 9, 10, 11], pos = 12, eof_ind = False,
        err_ind = False, script = []\<rparr>)"
proof -
  let ?wb = "\<lparr>length_w = 4, head = 0, data = [0, 0, 0, 0]\<rparr>"
  let ?f = "\<lparr>contents = [9], pos = 1, eof_ind = False, err_ind = False, script = []\<rparr>"
  let ?ps = "[[1, 2, 3], [4, 5], [6, 7, 8, 9, 10], [11 :: byte]]"
  have h1: "wb_ok ?wb" by (simp add: wb_ok_def)
  have h2: "at_end ?f" by (simp add: at_end_def)
  have h3: "\<forall>p\<in>set ?ps. length p < 2 ^ 63" by simp
  have h4: "sink_ok ?f" by (simp add: sink_ok_def)
  obtain r wb' f' where run: "BufferWrites_then_flush ?wb ?f ?ps = (r, wb', f')"
    by (metis prod_cases3)
  have ev: "BufferWrites_then_flush ?wb ?f ?ps
      = (True, \<lparr>length_w = 4, head = 0, data = [11, 5, 3, 0]\<rparr>,
      \<lparr>contents = [9, 1, 2, 3, 4, 5, 6, 7, 8, 9, 10, 11], pos = 12, eof_ind = False,
        err_ind = False, script = []\<rparr>)"
    by (simp add: BufferWrites_then_flush_def Flint__BufferWrite_def Flint__BufferFlush_def
          fwrite_def next_outcome_def put_bytes_def memcpy_def Let_def)
  from buffer_writes_concatenate[OF h1 h2 h3 run] h1 h2 h4 ev show ?thesis by simp
qed

section \<open>The binary record codec\<close>

lemma length_le_bytes: "length (le_bytes k w) = k"
  by (induction k arbitrary: w) simp_all

lemma length_object_bytes: "length (object_bytes h k w) = k"
  by (simp add: object_bytes_def length_le_bytes split: endian.splits)

lemma le_word_split:
  "(ucast (ucast w :: byte) :: 'a::len word) OR push_bit 8 (take_bit n (drop_bit 8 w))
     = take_bit (n + 8) w"
  by (rule bit_eqI) (auto simp add: bit_simps)

lemma le_word_le_bytes: "le_word (le_bytes k (w::'a::len word)) = take_bit (8 * k) w"
  by (induction k arbitrary: w) (simp_all add: le_word_split add.commute)

lemma object_word_object_bytes:
  "LENGTH('a) \<le> 8 * k \<Longrightarrow> object_word h (object_bytes h k (w::'a::len word)) = w"
  by (simp add: object_word_def object_bytes_def le_word_le_bytes take_bit_word_eq_self
           split: endian.splits)

lemma decode_spec_record:
  assumes "tuple_ok t"
  shows "decode_records h (spec_record h t @ rest) = map_option ((#) t) (decode_records h rest)"
proof -
  obtain tag pid tid ts name where t: "t = (tag, pid, tid, ts, name)" by (cases t)
  let ?fix = "object_bytes h 4 pid @ object_bytes h 4 tid @ object_bytes h 8 ts"
  have l: "length ?fix = 16" by (simp add: length_object_bytes)
  have p: "object_word h (take 4 (?fix @ xs)) = pid"
          "object_word h (take 4 (drop 4 (?fix @ xs))) = tid"
          "object_word h (take 8 (drop 8 (?fix @ xs))) = ts" for xs
    by (simp_all add: length_object_bytes object_word_object_bytes)
  show ?thesis
  proof (cases "tag = 2")
    case True
    with assms t have n: "length name \<le> 255" by (simp add: tuple_ok_def)
    then have un: "unat (word_of_nat (length name) :: byte) = length name"
      by (simp add: unat_of_nat)
    have sr: "spec_record h t = tag # (?fix @ [word_of_nat (length name)] @ name)"
      using True t by simp
    have nth: "(?fix @ [word_of_nat (length name)] @ name @ rest) ! 16 = word_of_nat (length name)"
      using l by (metis append_assoc nth_append_length append_Cons append_Nil)
    show ?thesis
      unfolding sr
      apply (simp only: append_Cons append_assoc decode_records.simps(2))
      using True l un nth p[of "[word_of_nat (length name)] @ name @ rest"]
      apply (simp add: t Let_def length_object_bytes)
      done
  next
    case False
    with assms t have e: "tag = 3" "name = []" by (simp_all add: tuple_ok_def)
    have sr: "spec_record h t = tag # ?fix" using e t by simp
    show ?thesis
      unfolding sr
      apply (simp only: append_Cons append_assoc decode_records.simps(2))
      using e l p[of rest]
      apply (simp add: t Let_def length_object_bytes)
      done
  qed
qed

lemma decode_concat:
  assumes "list_all tuple_ok ts"
  shows "decode_records h (concat (map (spec_record h) ts)) = Some ts"
  using assms
proof (induction ts)
  case Nil
  then show ?case by simp
next
  case (Cons t ts)
  then show ?case using decode_spec_record[of t h "concat (map (spec_record h) ts)"] by simp
qed

lemma unat_name_len: "0 < k \<Longrightarrow> k \<le> 255 \<Longrightarrow> unat (word_of_int k :: byte) = nat k"
  by (simp add: unsigned_of_int take_bit_int_eq_self)

lemma write_via_ptr:
  assumes "Flint__BufferWrite (wb_deref wbp) f p = (True, wb', f')"
    and "wb_ok (wb_deref wbp)" "at_end f" "length p < 2 ^ 63"
  shows "contents f' @ pending (wb_deref (wb_store wbp wb'))
           = contents f @ pending (wb_deref wbp) @ p
         \<and> wb_ok (wb_deref (wb_store wbp wb')) \<and> at_end f'"
proof (cases wbp)
  case None
  from BufferWrite_ok[OF assms]
  have a: "contents f' @ pending wb' = contents f @ pending (wb_deref wbp) @ p"
    "wb_ok wb'" "at_end f'" "length_w wb' = length_w (wb_deref wbp)" by simp_all
  from a(2,4) None have "unat (head wb') = 0" by (simp add: wb_ok_def wb_deref_def wb_zero_def)
  then have "pending wb' = []" by (simp add: pending_def)
  with a None show ?thesis
    by (simp add: wb_store_def wb_deref_def wb_zero_def pending_def wb_ok_def)
next
  case (Some wb)
  with BufferWrite_ok[OF assms] show ?thesis by (simp add: wb_store_def wb_deref_def)
qed

lemma begin_binary_eq:
  assumes "file c = Some f" "\<not> feof f" "\<not> ferror f" "is_json c = 0"
    and "0 < name_len" "nat (min name_len 255) \<le> length nm"
  shows "FlintTraceBeginLenTidPid h stack (Some c) wbp when' (Some nm) name_len tid pid =
        (case Flint__BufferWrite (wb_deref wbp) f
                (spec_record h (recorded (TraceBegin wr stack when' (Some nm) name_len tid pid))) of
           (r, wb', f') \<Rightarrow>
              if \<not> r then (False, Some (c\<lparr>file := Some f'\<rparr>), wb_store wbp wb')
              else (True, Some (c\<lparr>file := Some f'\<rparr>), wb_store wbp wb'))"
proof -
  have l17: "length (FlintEndEvent_bytes h ev) = 17" for ev :: FlintBeginEvent
    by (simp add: FlintEndEvent_bytes_def length_object_bytes)
  show ?thesis
  proof (cases "255 < name_len")
    case True
    with assms(6) have "255 \<le> length nm" by simp
    with True assms(1-5) show ?thesis
      by (simp add: FlintTraceBeginLenTidPid_def Let_def sizeof_FlintBeginEvent_def
            FlintBeginEvent_bytes_def l17 memcpy_def)
         (simp add: FlintEndEvent_bytes_def FlintEventType_Begin_def)
  next
    case False
    with assms(5) have u: "unat (word_of_int name_len :: byte) = nat name_len"
      by (simp add: unat_name_len)
    from False assms(6) have "nat name_len \<le> length nm" by simp
    with False assms(1-5) u show ?thesis
      by (simp add: FlintTraceBeginLenTidPid_def Let_def sizeof_FlintBeginEvent_def
            FlintBeginEvent_bytes_def l17 memcpy_def)
         (simp add: FlintEndEvent_bytes_def FlintEventType_Begin_def)
  qed
qed

lemma begin_valid:
  assumes "FlintTraceBeginLenTidPid h stack ctx wbp when' name name_len tid pid = (True, ctx', wbp')"
  obtains c nm f where "ctx = Some c" "name = Some nm" "file c = Some f"
    "\<not> feof f" "\<not> ferror f" "0 < name_len"
proof -
  from assms obtain c where c: "ctx = Some c"
    by (cases ctx) (simp_all add: FlintTraceBeginLenTidPid_def)
  from assms c obtain nm where nm: "name = Some nm"
    by (cases name) (simp_all add: FlintTraceBeginLenTidPid_def)
  from assms c nm obtain f where f: "file c = Some f"
    by (cases "file c") (simp_all add: FlintTraceBeginLenTidPid_def)
  have "\<not> feof f \<and> \<not> ferror f \<and> 0 < name_len"
  proof (rule ccontr)
    assume "\<not> (\<not> feof f \<and> \<not> ferror f \<and> 0 < name_len)"
    then have "FlintTraceBeginLenTidPid h stack ctx wbp when' name name_len tid pid
               = (False, ctx, wbp)"
      using c nm f by (auto simp: FlintTraceBeginLenTidPid_def)
    with assms show False by simp
  qed
  with c nm f that show ?thesis by blast
qed

lemma begin_binary:
  assumes "bin_inv ctx wbp" "name_readable (TraceBegin wr stack when' name name_len tid pid)"
    and "FlintTraceBeginLenTidPid h stack ctx wbp when' name name_len tid pid = (True, ctx', wbp')"
  shows "bin_inv ctx' wbp' \<and>
         written ctx' wbp' = written ctx wbp
            @ spec_record h (recorded (TraceBegin wr stack when' name name_len tid pid)) \<and>
         tuple_ok (recorded (TraceBegin wr stack when' name name_len tid pid)) \<and>
         (wbp' = None) = (wbp = None)"
proof -
  from assms(3) obtain c nm f where v: "ctx = Some c" "name = Some nm" "file c = Some f"
    "\<not> feof f" "\<not> ferror f" "0 < name_len"
    by (rule begin_valid)
  from assms(1) v have inv: "is_json c = 0" "at_end f" "wb_ok (wb_deref wbp)"
    by (simp_all add: bin_inv_def)
  from assms(2) v have rd: "nat (min name_len 255) \<le> length nm" by simp
  let ?P = "spec_record h (recorded (TraceBegin wr stack when' (Some nm) name_len tid pid))"
  have eq: "FlintTraceBeginLenTidPid h stack ctx wbp when' name name_len tid pid =
        (case Flint__BufferWrite (wb_deref wbp) f ?P of
           (r, wb', f') \<Rightarrow>
              if \<not> r then (False, Some (c\<lparr>file := Some f'\<rparr>), wb_store wbp wb')
              else (True, Some (c\<lparr>file := Some f'\<rparr>), wb_store wbp wb'))"
    using begin_binary_eq[OF v(3,4,5) inv(1) v(6) rd] v(1,2) by simp
  obtain r wb1 f1 where w: "Flint__BufferWrite (wb_deref wbp) f ?P = (r, wb1, f1)"
    by (metis prod_cases3)
  from assms(3) eq w have r: "r" and c': "ctx' = Some (c\<lparr>file := Some f1\<rparr>)"
    and w': "wbp' = wb_store wbp wb1"
    by (auto split: if_splits)
  have lp: "length ?P < 2 ^ 63" using rd v(6) by (simp add: length_object_bytes)
  from write_via_ptr[OF w[unfolded r[THEN eqTrueI]] inv(3,2) lp]
  have "contents f1 @ pending (wb_deref wbp') = contents f @ pending (wb_deref wbp) @ ?P"
    "wb_ok (wb_deref wbp')" "at_end f1"
    by (simp_all add: w')
  moreover have "tuple_ok (recorded (TraceBegin wr stack when' name name_len tid pid))"
    using v(2,6) by (simp add: tuple_ok_def)
  moreover have "(wbp' = None) = (wbp = None)"
    using w' by (simp add: wb_store_def split: option.splits)
  ultimately show ?thesis using v inv(1) c'
    by (simp add: bin_inv_def written_def sink_bytes_def ctx_file_def)
qed


lemma end_binary:
  assumes "bin_inv ctx wbp"
    and "FlintTraceEndTidPid h ctx wbp when' tid pid = (True, ctx', wbp')"
  shows "bin_inv ctx' wbp' \<and>
         written ctx' wbp' = written ctx wbp @ spec_record h (recorded (TraceEnd wr when' tid pid))
         \<and> (wbp' = None) = (wbp = None)"
proof -
  from assms(1) obtain c f where v: "ctx = Some c" "file c = Some f"
    and inv: "is_json c = 0" "at_end f" "wb_ok (wb_deref wbp)"
    by (auto simp: bin_inv_def split: option.splits)
  let ?P = "spec_record h (recorded (TraceEnd wr when' tid pid))"
  have ok: "\<not> feof f \<and> \<not> ferror f"
  proof (rule ccontr)
    assume "\<not> (\<not> feof f \<and> \<not> ferror f)"
    then have "FlintTraceEndTidPid h ctx wbp when' tid pid = (False, ctx, wbp)"
      using v by (auto simp: FlintTraceEndTidPid_def)
    with assms(2) show False by simp
  qed
  have eq: "FlintTraceEndTidPid h ctx wbp when' tid pid =
        (case Flint__BufferWrite (wb_deref wbp) f ?P of
           (r, wb', f') \<Rightarrow>
              if \<not> r then (False, Some (c\<lparr>file := Some f'\<rparr>), wb_store wbp wb')
              else (True, Some (c\<lparr>file := Some f'\<rparr>), wb_store wbp wb'))"
    using v inv(1) ok
    by (simp add: FlintTraceEndTidPid_def Let_def sizeof_FlintEndEvent_def
          FlintEndEvent_bytes_def FlintEventType_End_def length_object_bytes)
  obtain r wb1 f1 where w: "Flint__BufferWrite (wb_deref wbp) f ?P = (r, wb1, f1)"
    by (metis prod_cases3)
  from assms(2) eq w have r: "r" and c': "ctx' = Some (c\<lparr>file := Some f1\<rparr>)"
    and w': "wbp' = wb_store wbp wb1"
    by (auto split: if_splits)
  have lp: "length ?P < 2 ^ 63" by (simp add: length_object_bytes)
  from write_via_ptr[OF w[unfolded r[THEN eqTrueI]] inv(3,2) lp]
  have "contents f1 @ pending (wb_deref wbp') = contents f @ pending (wb_deref wbp) @ ?P"
    "wb_ok (wb_deref wbp')" "at_end f1"
    by (simp_all add: w')
  moreover have "(wbp' = None) = (wbp = None)"
    using w' by (simp add: wb_store_def split: option.splits)
  ultimately show ?thesis using v inv(1) c'
    by (simp add: bin_inv_def written_def sink_bytes_def ctx_file_def)
qed

lemma wb_load_None: "(wb_load bufs wr = None) = (wr = None)"
  by (simp add: wb_load_def)

lemma wb_load_save:
  "(wbp' = None) = (wr = None) \<Longrightarrow> wb_load (wb_save bufs wr wbp') wr = wbp'"
  by (cases wr; cases wbp') (simp_all add: wb_load_def wb_save_def)

lemma do_call_binary:
  assumes "bin_inv ctx (wb_load bufs wr)" "name_readable call" "call_buffer call = wr"
    and "do_call h ctx bufs call = (True, ctx', bufs')"
  shows "bin_inv ctx' (wb_load bufs' wr) \<and>
         written ctx' (wb_load bufs' wr)
           = written ctx (wb_load bufs wr) @ spec_record h (recorded call) \<and>
         tuple_ok (recorded call)"
proof (cases call)
  case (TraceBegin wr0 stack when' name name_len tid pid)
  with assms(3) have wr: "wr0 = wr" by simp
  obtain r wbp' where b:
    "FlintTraceBeginLenTidPid h stack ctx (wb_load bufs wr) when' name name_len tid pid
       = (r, ctx', wbp')" and r: "r" and bufs': "bufs' = wb_save bufs wr wbp'"
    using assms(4) TraceBegin wr by (auto split: prod.splits)
  from assms(2) TraceBegin wr
  have rd: "name_readable (TraceBegin wr stack when' name name_len tid pid)" by simp
  from begin_binary[OF assms(1) rd b[unfolded r[THEN eqTrueI]]]
  have s: "bin_inv ctx' wbp'"
    "written ctx' wbp' = written ctx (wb_load bufs wr) @ spec_record h (recorded call)"
    "tuple_ok (recorded call)" "(wbp' = None) = (wr = None)"
    using TraceBegin wr by (simp_all add: wb_load_None)
  from wb_load_save[OF s(4), of bufs] s(1,2,3) show ?thesis by (simp add: bufs')
next
  case (TraceEnd wr0 when' tid pid)
  with assms(3) have wr: "wr0 = wr" by simp
  obtain r wbp' where b:
    "FlintTraceEndTidPid h ctx (wb_load bufs wr) when' tid pid = (r, ctx', wbp')"
    and r: "r" and bufs': "bufs' = wb_save bufs wr wbp'"
    using assms(4) TraceEnd wr by (auto split: prod.splits)
  from end_binary[OF assms(1) b[unfolded r[THEN eqTrueI]], of wr]
  have s: "bin_inv ctx' wbp'"
    "written ctx' wbp' = written ctx (wb_load bufs wr) @ spec_record h (recorded call)"
    "(wbp' = None) = (wr = None)"
    using TraceEnd wr by (simp_all add: wb_load_None)
  from wb_load_save[OF s(3), of bufs] s(1,2) TraceEnd show ?thesis
    by (simp add: bufs' tuple_ok_def)
qed

lemma trace_calls_binary:
  assumes "bin_inv ctx (wb_load bufs wr)" "list_all name_readable calls" "same_buffer wr calls"
    and "trace_calls h ctx bufs calls = (True, ctx', bufs')"
  shows "bin_inv ctx' (wb_load bufs' wr) \<and>
         written ctx' (wb_load bufs' wr)
           = written ctx (wb_load bufs wr) @ concat (map (spec_record h \<circ> recorded) calls) \<and>
         list_all tuple_ok (map recorded calls)"
  using assms
proof (induction calls arbitrary: ctx bufs)
  case Nil
  then show ?case by simp
next
  case (Cons call calls)
  obtain r ctx1 bufs1 where d: "do_call h ctx bufs call = (r, ctx1, bufs1)"
    by (metis prod_cases3)
  obtain rs ctx2 bufs2 where t: "trace_calls h ctx1 bufs1 calls = (rs, ctx2, bufs2)"
    by (metis prod_cases3)
  from Cons.prems(4) d t have e: "r" "rs" "ctx2 = ctx'" "bufs2 = bufs'" by simp_all
  from Cons.prems(2) have rd: "name_readable call" "list_all name_readable calls" by simp_all
  from Cons.prems(3) have sb: "call_buffer call = wr" "same_buffer wr calls"
    by (simp_all add: same_buffer_def)
  from do_call_binary[OF Cons.prems(1) rd(1) sb(1) d[unfolded e(1)[THEN eqTrueI]]]
  have s1: "bin_inv ctx1 (wb_load bufs1 wr)"
    "written ctx1 (wb_load bufs1 wr)
       = written ctx (wb_load bufs wr) @ spec_record h (recorded call)"
    "tuple_ok (recorded call)" by simp_all
  from Cons.IH[OF s1(1) rd(2) sb(2) t[unfolded e(2)[THEN eqTrueI] e(3,4)]] s1(2,3)
  show ?case by simp
qed

lemma fflush_contents: "contents (snd (fflush f)) = contents f"
  by (simp add: fflush_def next_outcome_def split: list.splits io_outcome.splits)

lemma FlintFlush_emptied:
  assumes "bin_inv ctx wbp" "FlintFlush ctx wbp = (r, ctx', wbp')" "head (wb_deref wbp') = 0"
  shows "sink_bytes ctx' = written ctx wbp"
proof -
  from assms(1) obtain c f where v: "ctx = Some c" "file c = Some f"
    and inv: "at_end f" "wb_ok (wb_deref wbp)"
    by (auto simp: bin_inv_def split: option.splits)
  obtain r1 wb1 f1 where fl: "Flint__BufferFlush (wb_deref wbp) f = (r1, wb1, f1)"
    by (metis prod_cases3)
  from assms(2) v fl have c': "ctx' = Some (c\<lparr>file := Some (snd (fflush f1))\<rparr>)"
    and w': "wbp' = wb_store wbp wb1"
    by (auto simp: FlintFlush_def Let_def split: prod.splits)
  have "contents f1 = contents f @ pending (wb_deref wbp)"
  proof (cases r1)
    case True
    with BufferFlush_ok[OF fl[unfolded True[THEN eqTrueI]] inv(1)] show ?thesis by simp
  next
    case False
    with fl have nz: "head (wb_deref wbp) \<noteq> 0" "wb1 = wb_deref wbp"
      by (auto simp: Flint__BufferFlush_def split: if_splits prod.splits)
    with assms(3) w' show ?thesis
      by (cases wbp) (simp_all add: wb_store_def wb_deref_def wb_zero_def)
  qed
  then show ?thesis using v c'
    by (simp add: written_def sink_bytes_def ctx_file_def fflush_contents)
qed

lemma le_bytes_4:
  "le_bytes 4 w = [ucast w, ucast (drop_bit 8 w), ucast (drop_bit 16 w), ucast (drop_bit 24 w)]"
  by (simp add: numeral_eq_Suc drop_bit_drop_bit)

lemma le_bytes_8:
  "le_bytes 8 w = [ucast w, ucast (drop_bit 8 w), ucast (drop_bit 16 w), ucast (drop_bit 24 w),
                   ucast (drop_bit 32 w), ucast (drop_bit 40 w), ucast (drop_bit 48 w),
                   ucast (drop_bit 56 w)]"
  by (simp add: numeral_eq_Suc drop_bit_drop_bit)

lemmas run_defs = trace_then_flush_def wb_load_def wb_save_def
  FlintTraceBeginLenTidPid_def FlintTraceEndTidPid_def
  FlintFlush_def Flint__BufferWrite_def Flint__BufferFlush_def fwrite_def fflush_def
  next_outcome_def put_bytes_def memcpy_def wb_deref_def wb_store_def wb_zero_def feof_def ferror_def
  FlintBeginEvent_bytes_def FlintEndEvent_bytes_def object_bytes_def le_bytes_4 le_bytes_8
  sizeof_FlintBeginEvent_def sizeof_FlintEndEvent_def FlintEventType_Begin_def
  FlintEventType_End_def Let_def


text \<open>
  C1, as the code has it. For every sequence of Begin/End calls on an open binary-mode
  context that all pass the same write buffer (or all pass none) and all return true,
  followed by a flush of that buffer that empties it, the bytes at the sink after those
  it and the buffer held before (the header, for a fresh trace) are the records of the
  calls in call order, each laid out as tag (1), pid (4), tid (4), timestamp (8) and,
  for Begin only, namelen (1) and the name, the name being the first \<open>min name_len 255\<close>
  bytes of the caller's; and they decode back to exactly the tuples of the calls.
\<close>

theorem binary_roundtrip:
  assumes "file c = Some f" "is_json c = 0" "at_end f" "wb_ok (wb_deref (wb_load bufs wr))"
    and "list_all name_readable calls" "same_buffer wr calls"
    and "trace_then_flush h (Some c) bufs wr calls = (True, ctx', bufs')"
  shows "sink_bytes ctx' = contents f @ pending (wb_deref (wb_load bufs wr))
                             @ concat (map (spec_record h \<circ> recorded) calls) \<and>
         decode_records h
           (drop (length (contents f) + length (pending (wb_deref (wb_load bufs wr))))
              (sink_bytes ctx'))
         = Some (map recorded calls)"
proof -
  have inv: "bin_inv (Some c) (wb_load bufs wr)" using assms(1-4) by (simp add: bin_inv_def)
  obtain r ctx1 bufs1 where t: "trace_calls h (Some c) bufs calls = (r, ctx1, bufs1)"
    by (metis prod_cases3)
  obtain r' wbp' where fl: "FlintFlush ctx1 (wb_load bufs1 wr) = (r', ctx', wbp')"
    and r: "r" and hd: "head (wb_deref wbp') = 0"
    using assms(7) t by (auto simp: trace_then_flush_def split: prod.splits)
  from trace_calls_binary[OF inv assms(5,6) t[unfolded r[THEN eqTrueI]]]
  have s: "bin_inv ctx1 (wb_load bufs1 wr)"
    "written ctx1 (wb_load bufs1 wr)
       = written (Some c) (wb_load bufs wr) @ concat (map (spec_record h \<circ> recorded) calls)"
    "list_all tuple_ok (map recorded calls)" by simp_all
  from FlintFlush_emptied[OF s(1) fl hd] s(2) assms(1)
  have a: "sink_bytes ctx' = contents f @ pending (wb_deref (wb_load bufs wr))
                             @ concat (map (spec_record h \<circ> recorded) calls)"
    by (simp add: written_def sink_bytes_def ctx_file_def)
  from decode_concat[OF s(3), of h]
  have "decode_records h (concat (map (spec_record h \<circ> recorded) calls)) = Some (map recorded calls)"
    by (simp add: comp_def)
  with a show ?thesis by simp
qed

theorem binary_roundtrip_witness:
  "same_buffer (Some 0)
     [TraceBegin (Some 0) [] double_1 (Some [65, 66, 67]) 2 5 7, TraceEnd (Some 0) double_2 5 7] \<and>
   fst (trace_then_flush example_host
          (Some \<lparr>file = Some \<lparr>contents = [1, 2, 3], pos = 3, eof_ind = False, err_ind = False,
                               script = []\<rparr>,
                 timestamp_unit = double_1, is_json = 0\<rparr>)
          example_buffers (Some 0)
          [TraceBegin (Some 0) [] double_1 (Some [65, 66, 67]) 2 5 7,
           TraceEnd (Some 0) double_2 5 7]) \<and>
   decode_records example_host
     (drop 3 (sink_bytes (fst (snd
        (trace_then_flush example_host
          (Some \<lparr>file = Some \<lparr>contents = [1, 2, 3], pos = 3, eof_ind = False, err_ind = False,
                               script = []\<rparr>,
                 timestamp_unit = double_1, is_json = 0\<rparr>)
          example_buffers (Some 0)
          [TraceBegin (Some 0) [] double_1 (Some [65, 66, 67]) 2 5 7,
           TraceEnd (Some 0) double_2 5 7])))))
   = Some [(2, 7, 5, double_1, [65, 66]), (3, 7, 5, double_2, [])]"
proof -
  let ?h = "example_host"
  let ?f = "\<lparr>contents = [1, 2, 3], pos = 3, eof_ind = False, err_ind = False, script = []\<rparr>"
  let ?c = "\<lparr>file = Some ?f, timestamp_unit = double_1, is_json = 0\<rparr>"
  let ?calls = "[TraceBegin (Some 0) [] double_1 (Some [65, 66, 67]) 2 5 7,
                 TraceEnd (Some 0) double_2 5 7]"
  let ?run = "trace_then_flush ?h (Some ?c) example_buffers (Some 0) ?calls"
  have h1: "file ?c = Some ?f" by simp
  have h2: "is_json ?c = 0" by simp
  have h3: "at_end ?f" by (simp add: at_end_def)
  have h4: "wb_ok (wb_deref (wb_load example_buffers (Some 0)))"
    by (simp add: wb_ok_def wb_deref_def wb_load_def example_buffers_def)
  have h5: "list_all name_readable ?calls" by simp
  have h6: "same_buffer (Some 0) ?calls" by (simp add: same_buffer_def)
  have r: "fst ?run"
    by (simp add: run_defs example_host_def example_buffers_def double_1_def double_2_def)
  then have h7: "?run = (True, fst (snd ?run), snd (snd ?run))"
    by (simp only: prod_eq_iff fst_conv snd_conv simp_thms)
  have l: "length (contents ?f) + length (pending (wb_deref (wb_load example_buffers (Some 0)))) = 3"
    by (simp add: pending_def wb_deref_def wb_load_def example_buffers_def)
  have m: "map recorded ?calls = [(2, 7, 5, double_1, [65, 66]), (3, 7, 5, double_2, [])]"
    by simp
  note th = binary_roundtrip[OF h1 h2 h3 h4 h5 h6 h7, unfolded l m]
  from h6 r th[THEN conjunct2] show ?thesis by (intro conjI)
qed

lemma mixed_buffers_sink:
  "sink_bytes (fst (snd
      (trace_then_flush example_host
          (Some \<lparr>file = Some \<lparr>contents = [1, 2, 3], pos = 3, eof_ind = False, err_ind = False,
                               script = []\<rparr>,
                 timestamp_unit = double_1, is_json = 0\<rparr>)
          example_buffers (Some 0)
          [TraceBegin (Some 0) [] double_1 (Some [65, 66, 67]) 2 5 7,
           TraceEnd None double_2 5 7])))
   = [1, 2, 3] @ concat (map (spec_record example_host)
                           [(3, 7, 5, double_2, []), (2, 7, 5, double_1, [65, 66])])"
  by (simp add: run_defs sink_bytes_def ctx_file_def example_host_def example_buffers_def
        double_1_def double_2_def)

text \<open>
  C1, as stated. A Begin that passes a buffer and an End that passes none both return
  true, and the flush empties the buffer; the End record went straight to the sink
  while the Begin record waited in the buffer, so the file decodes to End, Begin: not
  the calls in call order.
\<close>

theorem mixed_buffers_reorder:
  "fst (trace_then_flush example_host
          (Some \<lparr>file = Some \<lparr>contents = [1, 2, 3], pos = 3, eof_ind = False, err_ind = False,
                               script = []\<rparr>,
                 timestamp_unit = double_1, is_json = 0\<rparr>)
          example_buffers (Some 0)
          [TraceBegin (Some 0) [] double_1 (Some [65, 66, 67]) 2 5 7,
           TraceEnd None double_2 5 7]) \<and>
   decode_records example_host
     (drop 3 (sink_bytes (fst (snd
        (trace_then_flush example_host
          (Some \<lparr>file = Some \<lparr>contents = [1, 2, 3], pos = 3, eof_ind = False, err_ind = False,
                               script = []\<rparr>,
                 timestamp_unit = double_1, is_json = 0\<rparr>)
          example_buffers (Some 0)
          [TraceBegin (Some 0) [] double_1 (Some [65, 66, 67]) 2 5 7,
           TraceEnd None double_2 5 7])))))
   = Some [(3, 7, 5, double_2, []), (2, 7, 5, double_1, [65, 66])] \<and>
   decode_records example_host
     (drop 3 (sink_bytes (fst (snd
        (trace_then_flush example_host
          (Some \<lparr>file = Some \<lparr>contents = [1, 2, 3], pos = 3, eof_ind = False, err_ind = False,
                               script = []\<rparr>,
                 timestamp_unit = double_1, is_json = 0\<rparr>)
          example_buffers (Some 0)
          [TraceBegin (Some 0) [] double_1 (Some [65, 66, 67]) 2 5 7,
           TraceEnd None double_2 5 7])))))
   \<noteq> Some (map recorded [TraceBegin (Some 0) [] double_1 (Some [65, 66, 67]) 2 5 7,
                           TraceEnd None double_2 5 7])"
proof -
  let ?ts = "[(3, 7, 5, double_2, []), (2, 7, 5, double_1, [65, 66])] :: trace_tuple list"
  have ok: "list_all tuple_ok ?ts" by (simp add: tuple_ok_def)
  have d: "decode_records example_host (concat (map (spec_record example_host) ?ts)) = Some ?ts"
    by (rule decode_concat[OF ok])
  have r: "fst (trace_then_flush example_host
          (Some \<lparr>file = Some \<lparr>contents = [1, 2, 3], pos = 3, eof_ind = False, err_ind = False,
                               script = []\<rparr>,
                 timestamp_unit = double_1, is_json = 0\<rparr>)
          example_buffers (Some 0)
          [TraceBegin (Some 0) [] double_1 (Some [65, 66, 67]) 2 5 7,
           TraceEnd None double_2 5 7])"
    by (simp add: run_defs example_host_def example_buffers_def double_1_def double_2_def)
  show ?thesis
    unfolding mixed_buffers_sink
    using r d by simp
qed

section \<open>Truncation\<close>





lemma fmt_u_digit: "n < 10 \<Longrightarrow> fmt_u n = [''0123456789'' ! n]"
  by (simp add: fmt_u.simps)


section \<open>Scenarios\<close>

lemma scenario_t_bin_eval:
  "scenario_t_bin h junk stack =
     (True, True,
      Some \<lparr>contents =
               FlintHeader_bytes h \<lparr>magic_header = 0x0BADF00D, version = 0,
                                     header_timestamp_unit = double_1, reserved = junk\<rparr> @
               spec_record h (2, 0, 0, double_1, [65]) @
               spec_record h (3, 0, 0, double_2, []),
             pos = 61, eof_ind = False, err_ind = False, script = []\<rparr>)"
  by (simp add: scenario_t_bin_def FlintInit_def Flint__Init_def fopen_wb_def FlintHeader_bytes_def
        FlintTraceBegin_def FlintTraceBeginTidPid_def strlen_def bytes_of_def
        FlintTraceEnd_def FlintTraceEndTidPid_def FlintTraceBeginLenTidPid_def FlintQuit_def
        Flint__BufferWrite_def Flint__BufferFlush_def fwrite_def next_outcome_def put_bytes_def
        memcpy_def wb_deref_def wb_store_def wb_zero_def feof_def ferror_def
        FlintBeginEvent_bytes_def FlintEndEvent_bytes_def length_object_bytes
        sizeof_FlintBeginEvent_def sizeof_FlintEndEvent_def FlintEventType_Begin_def
        FlintEventType_End_def Let_def)


text \<open>
  C5, as the code has it. With no write buffer passed and every call succeeding, the
  scenario leaves a file of exactly 61 bytes: the 25-byte header (magic, version and
  unit of 8 bytes each, one reserved byte), a 19-byte Begin record (tag, pid, tid,
  timestamp, length, \<^verbatim>\<open>A\<close>) and a 17-byte End record; the magic value \<^verbatim>\<open>0x0BADF00D\<close>, as
  a 64-bit integer in the host's byte order, is at offset 0.
\<close>

theorem scenario_t_bin_sizes:
  "scenario_t_bin h junk stack =
     (True, True,
      Some \<lparr>contents =
               FlintHeader_bytes h \<lparr>magic_header = 0x0BADF00D, version = 0,
                                     header_timestamp_unit = double_1, reserved = junk\<rparr> @
               spec_record h (2, 0, 0, double_1, [65]) @
               spec_record h (3, 0, 0, double_2, []),
             pos = 61, eof_ind = False, err_ind = False, script = []\<rparr>) \<and>
   length (FlintHeader_bytes h \<lparr>magic_header = 0x0BADF00D, version = 0,
                                 header_timestamp_unit = double_1, reserved = junk\<rparr>) = 25 \<and>
   length (spec_record h (2, 0, 0, double_1, [65])) = 19 \<and>
   length (spec_record h (3, 0, 0, double_2, [])) = 17 \<and>
   length (file_bytes (snd (snd (scenario_t_bin h junk stack)))) = 61 \<and>
   take 8 (file_bytes (snd (snd (scenario_t_bin h junk stack))))
     = object_bytes h 8 (0x0BADF00D :: 64 word)"
  by (simp add: scenario_t_bin_eval file_bytes_def FlintHeader_bytes_def length_object_bytes)

text \<open>C5, as stated: the file of the scenario does not have 56 bytes.\<close>

theorem scenario_t_bin_not_56_bytes:
  "length (file_bytes (snd (snd (scenario_t_bin example_host 0 [])))) \<noteq> 56"
  by (simp add: scenario_t_bin_eval file_bytes_def FlintHeader_bytes_def length_object_bytes)

text \<open>
  C3. A JSON trace closed with no event: \<^verbatim>\<open>FlintQuit\<close> seeks back two bytes although no
  event wrote a trailing comma, so the closing text overwrites the opening bracket and
  the newline of the prologue. The file has no \<^verbatim>\<open>[\<close> any more and is not JSON.
\<close>

theorem empty_json_trace_loses_bracket:
  "file_bytes (scenario_empty_json h junk unit)
     = bytes_of (''{\"traceEvents\":'' @ [CHR 0x0A] @ '']}'' @ [CHR 0x0A]) \<and>
   of_char (CHR ''['') \<notin> set (file_bytes (scenario_empty_json h junk unit))"
  by (simp add: scenario_empty_json_def FlintInitJson_def Flint__Init_def fopen_wb_def
        FlintQuit_def fprintf_def fflush_def fseek_cur_def next_outcome_def put_bytes_def
        json_prologue_def bytes_of_def file_bytes_def Let_def)

text \<open>
  C4. In JSON mode the name printed is read from \<^verbatim>\<open>ev.event.name.bytes\<close>, which only the
  binary branch fills: a Begin named \<^verbatim>\<open>A\<close> entered with \<^verbatim>\<open>Zzz\<close> on the stack returns
  true and writes an object named \<^verbatim>\<open>Z\<close>.
\<close>

theorem json_begin_prints_stack_bytes:
  "fst (FlintTraceBeginLenTidPid h (bytes_of ''Zzz'')
          (Some \<lparr>file = Some \<lparr>contents = [], pos = 0, eof_ind = False, err_ind = False,
                               script = []\<rparr>,
                 timestamp_unit = u, is_json = 1\<rparr>)
          None w (Some (bytes_of ''A'')) 1 5 7) \<and>
   sink_bytes (fst (snd (FlintTraceBeginLenTidPid h (bytes_of ''Zzz'')
          (Some \<lparr>file = Some \<lparr>contents = [], pos = 0, eof_ind = False, err_ind = False,
                               script = []\<rparr>,
                 timestamp_unit = u, is_json = 1\<rparr>)
          None w (Some (bytes_of ''A'')) 1 5 7)))
     = bytes_of ''{\"name\":\"Z\",\"ph\":\"B\",\"pid\":7,\"tid\":5,\"ts\":'' @
       fmt_f h (dmul h w u) @ bytes_of (''},'' @ [CHR 0x0A])"
  by (simp add: FlintTraceBeginLenTidPid_def feof_def ferror_def fprintf_def next_outcome_def
        put_bytes_def json_begin_def fmt_s_def fmt_u_digit bytes_of_def sink_bytes_def
        ctx_file_def wb_deref_def Let_def)

end
